theory Spec2Isabelle
  imports Main
begin

section \<open>Python strings\<close>

text \<open>
  A Python \<^verbatim>\<open>str\<close> is modelled as a \<^typ>\<open>string\<close>: one \<^typ>\<open>char\<close> per code point, for
  the code points U+0000 to U+00FF. The character classes below are Python's own on that
  range: \<^verbatim>\<open>str.isspace\<close> (which is also what \<^verbatim>\<open>\s\<close> of \<^verbatim>\<open>re\<close> matches in a
  \<^verbatim>\<open>str\<close> pattern and what \<^verbatim>\<open>str.strip()\<close> removes), \<^verbatim>\<open>str.isdigit\<close> (which
  accepts the superscript digits U+00B2, U+00B3 and U+00B9 besides 0 to 9) and
  \<^verbatim>\<open>str.lower\<close>.
\<close>

definition isspace :: "char \<Rightarrow> bool" where
  "isspace c = (c \<in> set [CHR 0x09, CHR 0x0A, CHR 0x0B, CHR 0x0C, CHR 0x0D,
                           CHR 0x1C, CHR 0x1D, CHR 0x1E, CHR 0x1F, CHR 0x20,
                           CHR 0x85, CHR 0xA0])"

definition ascii_digit :: "char \<Rightarrow> bool" where
  "ascii_digit c = (c \<in> set ''0123456789'')"

definition isdigit_char :: "char \<Rightarrow> bool" where
  "isdigit_char c = (ascii_digit c \<or> c \<in> set [CHR 0xB2, CHR 0xB3, CHR 0xB9])"

definition isdigit :: "string \<Rightarrow> bool" where
  \<comment> \<open>\<^verbatim>\<open>str.isdigit()\<close>: every character is a digit and there is at least one.\<close>
  "isdigit s = (s \<noteq> [] \<and> list_all isdigit_char s)"

definition strip :: "string \<Rightarrow> string" where
  \<comment> \<open>\<^verbatim>\<open>str.strip()\<close>: whitespace removed at both ends.\<close>
  "strip s = rev (dropWhile isspace (rev (dropWhile isspace s)))"

definition lower_char :: "char \<Rightarrow> char" where
  "lower_char c =
     (let n = (of_char c :: nat)
      in if (65 \<le> n \<and> n \<le> 90) \<or> (192 \<le> n \<and> n \<le> 222 \<and> n \<noteq> 215)
         then char_of (n + 32) else c)"

definition lower :: "string \<Rightarrow> string" where
  "lower s = map lower_char s"

definition startswith :: "string \<Rightarrow> string \<Rightarrow> bool" where
  "startswith s p = (take (length p) s = p)"


section \<open>The spreadsheet store adapter: reading leads\<close>

record lead =
  row_number :: nat
  name :: string
  contact :: string
  interest :: string
  region :: string
  status :: string

text \<open>
  \<^verbatim>\<open>while len(row) < len(headers): row.append("")\<close>
\<close>

function pad_row :: "string list \<Rightarrow> string list \<Rightarrow> string list" where
  "pad_row headers row =
     (if length row < length headers then pad_row headers (row @ [[]]) else row)"
  by pat_completeness auto
termination
  by (relation "measure (\<lambda>(headers, row). length headers - length row)") auto

declare pad_row.simps [simp del]

text \<open>\<^verbatim>\<open>row[k] if len(row) > k else d\<close>\<close>

definition cell :: "string list \<Rightarrow> nat \<Rightarrow> string \<Rightarrow> string" where
  "cell row k d = (if length row > k then row ! k else d)"

definition make_lead :: "nat \<Rightarrow> string list \<Rightarrow> lead" where
  "make_lead i row =
     \<lparr> row_number = i,
       name = cell row 0 [],
       contact = cell row 1 [],
       interest = cell row 2 [],
       region = cell row 3 [],
       status = cell row 4 ''Pending'' \<rparr>"

text \<open>
  The loop \<^verbatim>\<open>for i, row in enumerate(values[1:], start=2)\<close>: \<open>i\<close> is the sheet row of
  \<open>row\<close>.
\<close>

fun leads_from :: "nat \<Rightarrow> string list \<Rightarrow> string list list \<Rightarrow> lead list" where
  "leads_from i headers [] = []"
| "leads_from i headers (row # rows) =
     make_lead i (pad_row headers row) # leads_from (Suc i) headers rows"

text \<open>
  The part of \<^verbatim>\<open>read_leads\<close> after the API call: \<open>values\<close> is what
  \<^verbatim>\<open>result.get('values', [])\<close> gave.
\<close>

definition leads_of_values :: "string list list \<Rightarrow> lead list" where
  "leads_of_values values =
     (case values of
        [] \<Rightarrow> []
      | headers # rows \<Rightarrow> leads_from 2 headers rows)"


section \<open>The delivery adapter: classifying a contact\<close>

text \<open>
  The patterns this program gives to \<^verbatim>\<open>re\<close> are sequences of repeated character
  classes. An item \<open>(cls, lo, hi)\<close> stands for \<^verbatim>\<open>[cls]{lo,hi}\<close>, with \<open>hi = None\<close> for
  no upper bound. \<open>re_match\<close> is \<^verbatim>\<open>re.match\<close> of such a pattern written between
  \<^verbatim>\<open>^\<close> and \<^verbatim>\<open>$\<close>: it tries both to repeat the current item and to leave it, and
  \<^verbatim>\<open>$\<close> accepts the end of the string or a single newline before it. The second
  argument counts the repetitions of the current item so far.
\<close>

type_synonym re_item = "(char \<Rightarrow> bool) \<times> nat \<times> nat option"

fun re_match :: "re_item list \<Rightarrow> nat \<Rightarrow> string \<Rightarrow> bool" where
  "re_match [] k s = (s = [] \<or> s = [CHR 0x0A])"
| "re_match ((cls, lo, hi) # items) k [] = (lo \<le> k \<and> re_match items 0 [])"
| "re_match ((cls, lo, hi) # items) k (c # cs) =
     ((cls c \<and> (case hi of None \<Rightarrow> True | Some h \<Rightarrow> k < h)
         \<and> re_match ((cls, lo, hi) # items) (Suc k) cs)
      \<or> (lo \<le> k \<and> re_match items 0 (c # cs)))"

definition ascii_alpha :: "char \<Rightarrow> bool" where
  \<comment> \<open>\<^verbatim>\<open>[a-zA-Z]\<close>\<close>
  "ascii_alpha c =
     (c \<in> set ''abcdefghijklmnopqrstuvwxyz'' \<or> c \<in> set ''ABCDEFGHIJKLMNOPQRSTUVWXYZ'')"

definition local_char :: "char \<Rightarrow> bool" where
  \<comment> \<open>\<^verbatim>\<open>[a-zA-Z0-9._%+-]\<close>\<close>
  "local_char c = (ascii_alpha c \<or> ascii_digit c \<or> c \<in> set ''._%+-'')"

definition domain_char :: "char \<Rightarrow> bool" where
  \<comment> \<open>\<^verbatim>\<open>[a-zA-Z0-9.-]\<close>\<close>
  "domain_char c = (ascii_alpha c \<or> ascii_digit c \<or> c \<in> set ''.-'')"

definition email_pattern :: "re_item list" where
  \<comment> \<open>\<^verbatim>\<open>^[a-zA-Z0-9._%+-]+@[a-zA-Z0-9.-]+\.[a-zA-Z]{2,}$\<close>\<close>
  "email_pattern =
     [(local_char, 1, None),
      ((\<lambda>c. c = CHR ''@''), 1, Some 1),
      (domain_char, 1, None),
      ((\<lambda>c. c = CHR ''.''), 1, Some 1),
      (ascii_alpha, 2, None)]"

definition is_email :: "string \<Rightarrow> bool" where
  "is_email c = re_match email_pattern 0 c"

definition phone_punct :: "char \<Rightarrow> bool" where
  \<comment> \<open>\<^verbatim>\<open>[\s\-\(\)]\<close>, the class \<^verbatim>\<open>_send_whatsapp\<close> removes\<close>
  "phone_punct c = (isspace c \<or> c \<in> set ''-()'')"

definition phone_punct_plus :: "char \<Rightarrow> bool" where
  \<comment> \<open>\<^verbatim>\<open>[\s\-\(\)\+]\<close>, the class \<^verbatim>\<open>_is_phone_number\<close> removes\<close>
  "phone_punct_plus c = (isspace c \<or> c \<in> set ''-()+'')"

definition is_phone_number :: "string \<Rightarrow> bool" where
  "is_phone_number c =
     (let cleaned = filter (\<lambda>x. \<not> phone_punct_plus x) c
      in isdigit cleaned \<and> 10 \<le> length cleaned \<and> length cleaned \<le> 15)"

text \<open>
  The number \<^verbatim>\<open>_send_whatsapp\<close> sends to: lines 86 to 101, the value of \<^verbatim>\<open>phone\<close>
  when \<^verbatim>\<open>whatsapp_to\<close> is built.
\<close>

definition format_phone :: "string \<Rightarrow> string" where
  "format_phone phone =
     (if \<not> startswith phone ''+'' then
        (let cleaned_phone = filter (\<lambda>x. \<not> phone_punct x) phone
         in if startswith cleaned_phone ''91'' \<and> length cleaned_phone = 12
            then ''+'' @ cleaned_phone
            else if length cleaned_phone = 10 \<and> cleaned_phone ! 0 \<in> set ''6789''
            then ''+91'' @ cleaned_phone
            else if length cleaned_phone = 10
            then ''+1'' @ cleaned_phone
            else ''+'' @ cleaned_phone)
      else phone)"


section \<open>The external services\<close>

text \<open>
  The program talks to four services: the spreadsheet API, the text-generation API, the
  SMTP server and the messaging API. Each call is recorded as an \<open>event\<close>, in order. What
  a service answers is not the program's to decide: it is given by an \<open>env\<close>, whose
  functions receive the events so far besides the arguments of the call, so that the same
  call may be answered differently at different times. Log output is not modelled.
\<close>

datatype exn = HttpError string | TwilioException string | Exception string

fun str_of_exn :: "exn \<Rightarrow> string" where
  "str_of_exn (HttpError t) = t"
| "str_of_exn (TwilioException t) = t"
| "str_of_exn (Exception t) = t"

datatype 'a outcome = Returned 'a | Raised exn

datatype event =
    SheetsGet string string
      \<comment> \<open>\<^verbatim>\<open>values().get\<close>: sheet name, range\<close>
  | SheetsUpdate string nat string
      \<comment> \<open>\<^verbatim>\<open>values().update\<close> of the one cell \<^verbatim>\<open>{sheet_name}!E{row_number}\<close>: sheet name,
          row number, the value written\<close>
  | GenerateContent lead
      \<comment> \<open>\<^verbatim>\<open>model.generate_content\<close> with the prompt built from the lead\<close>
  | SmtpSend string string string string
      \<comment> \<open>the SMTP session of \<^verbatim>\<open>_send_email\<close>: from, to, subject, body\<close>
  | TwilioCreate string string string
      \<comment> \<open>\<^verbatim>\<open>messages.create\<close>: body, from, to\<close>
  | Sleep nat

record env =
  sheets_get :: "event list \<Rightarrow> string \<Rightarrow> string \<Rightarrow> exn + string list list"
  sheets_update :: "event list \<Rightarrow> string \<Rightarrow> nat \<Rightarrow> string \<Rightarrow> exn option"
  generate_content :: "event list \<Rightarrow> lead \<Rightarrow> exn + string"
  smtp_send :: "event list \<Rightarrow> string \<Rightarrow> string \<Rightarrow> string \<Rightarrow> string \<Rightarrow> exn option"
  twilio_create :: "event list \<Rightarrow> string \<Rightarrow> string \<Rightarrow> string \<Rightarrow> exn option"

text \<open>
  \<open>sheets_get\<close> answers with the \<^verbatim>\<open>values\<close> of the range (\<open>[]\<close> when the answer has
  none) or raises; \<open>generate_content\<close> answers with \<^verbatim>\<open>response.text\<close> or raises; the
  other three answer \<open>None\<close> when the call returns and \<open>Some e\<close> when it raises \<open>e\<close>.
\<close>


section \<open>The spreadsheet store adapter\<close>

definition default_sheet :: string where
  "default_sheet = ''outreach_leads''"

definition default_range :: string where
  "default_range = ''A:E''"

definition read_leads ::
  "env \<Rightarrow> string \<Rightarrow> string \<Rightarrow> event list \<Rightarrow> lead list outcome \<times> event list" where
  "read_leads env sheet_name range_name tr =
     (case sheets_get env tr sheet_name range_name of
        Inl e \<Rightarrow> (Raised e, tr @ [SheetsGet sheet_name range_name])
      | Inr values \<Rightarrow>
          (Returned (leads_of_values values), tr @ [SheetsGet sheet_name range_name]))"

definition update_lead_status ::
  "env \<Rightarrow> nat \<Rightarrow> string \<Rightarrow> string \<Rightarrow> event list \<Rightarrow> unit outcome \<times> event list" where
  "update_lead_status env row status' sheet_name tr =
     (case sheets_update env tr sheet_name row status' of
        Some e \<Rightarrow> (Raised e, tr @ [SheetsUpdate sheet_name row status'])
      | None \<Rightarrow> (Returned (), tr @ [SheetsUpdate sheet_name row status']))"

definition get_pending_leads ::
  "env \<Rightarrow> string \<Rightarrow> event list \<Rightarrow> lead list outcome \<times> event list" where
  "get_pending_leads env sheet_name tr =
     (case read_leads env sheet_name default_range tr of
        (Raised e, tr') \<Rightarrow> (Raised e, tr')
      | (Returned all_leads, tr') \<Rightarrow>
          (Returned (filter (\<lambda>l. lower (status l) = ''pending'') all_leads), tr'))"


section \<open>The message generator adapter\<close>

text \<open>
  \<^verbatim>\<open>generate_message\<close> catches every exception and returns \<^verbatim>\<open>None\<close> then, as it does
  for an empty \<^verbatim>\<open>response.text\<close>.
\<close>

definition generate_message :: "env \<Rightarrow> lead \<Rightarrow> event list \<Rightarrow> string option \<times> event list" where
  "generate_message env l tr =
     (case generate_content env tr l of
        Inl e \<Rightarrow> (None, tr @ [GenerateContent l])
      | Inr text \<Rightarrow>
          (if text \<noteq> [] then Some (strip text) else None, tr @ [GenerateContent l]))"


section \<open>The delivery adapter: sending\<close>

record message_sender =
  gmail_user :: string
  gmail_password :: string
  twilio_whatsapp_number :: string

definition send_email ::
  "message_sender \<Rightarrow> env \<Rightarrow> lead \<Rightarrow> string \<Rightarrow> string \<Rightarrow> event list
     \<Rightarrow> (bool \<times> string) \<times> event list" where
  "send_email s env l message email tr =
     (let subject = ''Hello '' @ name l @ ''!'';
          tr' = tr @ [SmtpSend (gmail_user s) email subject message]
      in case smtp_send env tr (gmail_user s) email subject message of
           None \<Rightarrow>
             ((True, ''Email sent successfully to '' @ name l @ '' ('' @ email @ '')''), tr')
         | Some e \<Rightarrow>
             ((False, ''Failed to send email to '' @ name l @ '' ('' @ email @ ''): ''
                       @ str_of_exn e), tr'))"

definition send_whatsapp ::
  "message_sender \<Rightarrow> env \<Rightarrow> lead \<Rightarrow> string \<Rightarrow> string \<Rightarrow> event list
     \<Rightarrow> (bool \<times> string) \<times> event list" where
  "send_whatsapp s env l message phone0 tr =
     (let phone = format_phone phone0;
          whatsapp_to = ''whatsapp:'' @ phone;
          tr' = tr @ [TwilioCreate message (twilio_whatsapp_number s) whatsapp_to]
      in case twilio_create env tr message (twilio_whatsapp_number s) whatsapp_to of
           None \<Rightarrow>
             ((True, ''WhatsApp sent successfully to '' @ name l @ '' ('' @ phone @ '')''), tr')
         | Some (TwilioException t) \<Rightarrow>
             ((False, ''Failed to send WhatsApp to '' @ name l @ '' ('' @ phone @ ''): '' @ t),
              tr')
         | Some e \<Rightarrow>
             ((False, ''Unexpected error sending WhatsApp to '' @ name l @ '' ('' @ phone
                       @ ''): '' @ str_of_exn e), tr'))"

definition send_message ::
  "message_sender \<Rightarrow> env \<Rightarrow> lead \<Rightarrow> string \<Rightarrow> bool \<Rightarrow> event list
     \<Rightarrow> (bool \<times> string) \<times> event list" where
  "send_message s env l message test_mode tr =
     (if test_mode then ((True, ''Test mode - message not actually sent''), tr)
      else
        (let c = strip (contact l)
         in if is_email c then send_email s env l message c tr
            else if is_phone_number c then send_whatsapp s env l message c tr
            else ((False, ''Invalid contact format for '' @ name l @ '': '' @ c), tr)))"


section \<open>The campaign orchestrator\<close>

text \<open>
  \<^verbatim>\<open>if not test_mode: self.sheets_manager.update_lead_status(lead['row_number'], st)\<close>:
  the call names no sheet, so the update goes to the default one.
\<close>

definition update_unless_test ::
  "env \<Rightarrow> bool \<Rightarrow> nat \<Rightarrow> string \<Rightarrow> event list \<Rightarrow> unit outcome \<times> event list" where
  "update_unless_test env test_mode row st tr =
     (if \<not> test_mode then update_lead_status env row st default_sheet tr
      else (Returned (), tr))"

text \<open>\<^verbatim>\<open>if not message\<close> holds for \<^verbatim>\<open>None\<close> and for the empty string.\<close>

definition truthy :: "string option \<Rightarrow> string option" where
  "truthy message = (if message = Some [] then None else message)"

text \<open>
  The body of the loop over the pending leads, on the counters
  \<open>(success_count, error_count)\<close>. After a failed generation the body ends with
  \<^verbatim>\<open>continue\<close>, before the delay.
\<close>

definition process_lead ::
  "message_sender \<Rightarrow> env \<Rightarrow> bool \<Rightarrow> lead \<Rightarrow> nat \<times> nat \<Rightarrow> event list
     \<Rightarrow> (nat \<times> nat) outcome \<times> event list" where
  "process_lead s env test_mode l counts tr =
     (let success_count = fst counts; error_count = snd counts;
          message = fst (generate_message env l tr);
          tr1 = snd (generate_message env l tr)
      in case truthy message of
           None \<Rightarrow>
             (case update_unless_test env test_mode (row_number l) ''Error'' tr1 of
                (Raised e, tr2) \<Rightarrow> (Raised e, tr2)
              | (Returned u, tr2) \<Rightarrow> (Returned (success_count, error_count + 1), tr2))
         | Some m \<Rightarrow>
             (let success = fst (fst (send_message s env l m test_mode tr1));
                  tr2 = snd (send_message s env l m test_mode tr1)
              in if success then
                   (case update_unless_test env test_mode (row_number l) ''Sent'' tr2 of
                      (Raised e, tr3) \<Rightarrow> (Raised e, tr3)
                    | (Returned u, tr3) \<Rightarrow>
                        (Returned (success_count + 1, error_count), tr3 @ [Sleep 1]))
                 else
                   (case update_unless_test env test_mode (row_number l) ''Error'' tr2 of
                      (Raised e, tr3) \<Rightarrow> (Raised e, tr3)
                    | (Returned u, tr3) \<Rightarrow>
                        (Returned (success_count, error_count + 1), tr3 @ [Sleep 1]))))"

fun process_leads ::
  "message_sender \<Rightarrow> env \<Rightarrow> bool \<Rightarrow> lead list \<Rightarrow> nat \<times> nat \<Rightarrow> event list
     \<Rightarrow> (nat \<times> nat) outcome \<times> event list" where
  "process_leads s env test_mode [] counts tr = (Returned counts, tr)"
| "process_leads s env test_mode (l # rest) counts tr =
     (case process_lead s env test_mode l counts tr of
        (Raised e, tr') \<Rightarrow> (Raised e, tr')
      | (Returned counts', tr') \<Rightarrow> process_leads s env test_mode rest counts' tr')"

text \<open>
  \<^verbatim>\<open>run_outreach_campaign\<close> returns nothing; the model returns the tally it logs, and
  \<open>None\<close> when it stops at "No pending leads found", where the counters do not exist yet.
\<close>

definition run_outreach_campaign ::
  "message_sender \<Rightarrow> env \<Rightarrow> bool \<Rightarrow> string \<Rightarrow> event list
     \<Rightarrow> (nat \<times> nat) option outcome \<times> event list" where
  "run_outreach_campaign s env test_mode sheet_name tr =
     (case get_pending_leads env sheet_name tr of
        (Raised e, tr1) \<Rightarrow> (Raised e, tr1)
      | (Returned pending_leads, tr1) \<Rightarrow>
          if pending_leads = [] then (Returned None, tr1)
          else
            (case process_leads s env test_mode pending_leads (0, 0) tr1 of
               (Raised e, tr2) \<Rightarrow> (Raised e, tr2)
             | (Returned counts, tr2) \<Rightarrow> (Returned (Some counts), tr2)))"

text \<open>The loop of \<^verbatim>\<open>retry_failed_leads\<close>; here too the update names no sheet.\<close>

fun reset_leads :: "env \<Rightarrow> lead list \<Rightarrow> event list \<Rightarrow> unit outcome \<times> event list" where
  "reset_leads env [] tr = (Returned (), tr)"
| "reset_leads env (l # rest) tr =
     (case update_lead_status env (row_number l) ''Pending'' default_sheet tr of
        (Raised e, tr') \<Rightarrow> (Raised e, tr')
      | (Returned u, tr') \<Rightarrow> reset_leads env rest tr')"

text \<open>The model returns the number of leads reset, which the source logs.\<close>

definition retry_failed_leads ::
  "env \<Rightarrow> string \<Rightarrow> event list \<Rightarrow> nat outcome \<times> event list" where
  "retry_failed_leads env sheet_name tr =
     (case read_leads env sheet_name default_range tr of
        (Raised e, tr1) \<Rightarrow> (Raised e, tr1)
      | (Returned all_leads, tr1) \<Rightarrow>
          (let failed_leads = filter (\<lambda>l. lower (status l) = ''error'') all_leads
           in if failed_leads = [] then (Returned 0, tr1)
              else
                (case reset_leads env failed_leads tr1 of
                   (Raised e, tr2) \<Rightarrow> (Raised e, tr2)
                 | (Returned u, tr2) \<Rightarrow> (Returned (length failed_leads), tr2))))"


section \<open>Notions used to state the properties\<close>

text \<open>
  Case-insensitive comparison: both sides through \<^verbatim>\<open>str.lower()\<close>. The source
  compares \<^verbatim>\<open>lead['status'].lower()\<close> with the literals \<^verbatim>\<open>'pending'\<close> and
  \<^verbatim>\<open>'error'\<close>, which are "Pending" and "Error" in lower case.
\<close>

definition iequal :: "string \<Rightarrow> string \<Rightarrow> bool" where
  "iequal a b = (lower a = lower b)"

text \<open>The events that write a status to the store, and those that deliver a message.\<close>

fun is_status_write :: "event \<Rightarrow> bool" where
  "is_status_write (SheetsUpdate sh r st) = True"
| "is_status_write ev = False"

fun is_delivery :: "event \<Rightarrow> bool" where
  "is_delivery (SmtpSend f t su b) = True"
| "is_delivery (TwilioCreate b f t) = True"
| "is_delivery ev = False"

text \<open>
  The path \<^verbatim>\<open>send_message\<close> took, read off what it did: the events it added to the
  trace \<open>tr\<close> it started from, and its result \<open>r\<close>.
\<close>

datatype path = EmailSend | PhoneSend | ImmediateFailure

definition path_taken :: "event list \<Rightarrow> (bool \<times> string) \<times> event list \<Rightarrow> path option" where
  "path_taken tr r =
     (case drop (length tr) (snd r) of
        [] \<Rightarrow> if fst (fst r) then None else Some ImmediateFailure
      | [SmtpSend f t su b] \<Rightarrow> Some EmailSend
      | [TwilioCreate b f t] \<Rightarrow> Some PhoneSend
      | evs \<Rightarrow> None)"

text \<open>
  Phone normalization in the words of the specification: the digits are the contact
  with whitespace, dashes, parentheses and plus signs stripped, as the phone
  classification strips them; (a) a leading \<open>+\<close>: as it is; (b) the digits start with
  "91" and are 12: \<open>+\<close> prefixed; (c) 10 digits, the first among 6, 7, 8, 9: \<open>+91\<close>
  prefixed; (d) 10 digits otherwise: \<open>+1\<close> prefixed; (e) else \<open>+\<close> prefixed.
\<close>

definition spec_normalize :: "string \<Rightarrow> string" where
  "spec_normalize c =
     (let digits = filter (\<lambda>x. \<not> phone_punct_plus x) c
      in if startswith c ''+'' then c
         else if startswith digits ''91'' \<and> length digits = 12 then ''+'' @ digits
         else if length digits = 10 \<and> hd digits \<in> set ''6789'' then ''+91'' @ digits
         else if length digits = 10 then ''+1'' @ digits
         else ''+'' @ digits)"

text \<open>Services for the examples: a sheet that holds \<open>values\<close>, and calls that all return.\<close>

definition example_env :: "string list list \<Rightarrow> (lead \<Rightarrow> exn + string) \<Rightarrow> env" where
  "example_env values gen =
     \<lparr> sheets_get = (\<lambda>tr sh rg. Inr values),
       sheets_update = (\<lambda>tr sh row st. None),
       generate_content = (\<lambda>tr l. gen l),
       smtp_send = (\<lambda>tr f t su b. None),
       twilio_create = (\<lambda>tr b f t. None) \<rparr>"

definition example_sheet :: "string list list" where
  "example_sheet =
     [[''name'', ''contact'', ''interest'', ''region'', ''status''],
      [''Jane'', ''jane@example.com'', ''solar'', ''Pune'', ''Pending''],
      [''Ravi'', ''9876543210'', ''wind'', ''Delhi'', ''Error''],
      [''Omar'', ''abc'', ''hydro'', ''Cairo'', ''PENDING''],
      [''Lena'', ''5551234567'', ''solar'', ''Austin'', ''error''],
      [''Kofi'', ''kofi@example.org'', ''wind'', ''Accra'', ''ERROR'']]"

text \<open>
  A sheet with the five columns of the store, and a data row whose status cell is
  missing: the API leaves out the empty cells at the end of a row.
\<close>

definition short_row_sheet :: "string list list" where
  "short_row_sheet =
     [[''name'', ''contact'', ''interest'', ''region'', ''status''],
      [''Asha'', ''asha@example.com'', ''solar'', ''Pune'']]"

definition example_gen :: "lead \<Rightarrow> exn + string" where
  "example_gen l = Inr (''Hello '' @ name l)"

definition failing_gen :: "lead \<Rightarrow> exn + string" where
  "failing_gen l = Inl (Exception ''quota exceeded'')"

definition example_sender :: message_sender where
  "example_sender =
     \<lparr> gmail_user = ''me@example.com'', gmail_password = ''secret'',
       twilio_whatsapp_number = ''whatsapp:+14155238886'' \<rparr>"

definition example_lead :: "string \<Rightarrow> lead" where
  "example_lead c =
     \<lparr> row_number = 2, name = ''Jane'', contact = c, interest = ''solar'',
       region = ''Pune'', status = ''Pending'' \<rparr>"


section \<open>Basic facts\<close>

lemma pad_row_eq: "pad_row headers row = row @ replicate (length headers - length row) []"
proof (induction headers row rule: pad_row.induct)
  case (1 headers row)
  show ?case
  proof (cases "length row < length headers")
    case True
    then have "length headers - length row = Suc (length headers - length (row @ [[]]))"
      by simp
    with True "1" show ?thesis
      by (subst pad_row.simps) (simp add: replicate_app_Cons_same)
  next
    case False
    then show ?thesis by (subst pad_row.simps) simp
  qed
qed

lemma lower_Pending: "lower ''Pending'' = ''pending''"
  by code_simp

lemma lower_Error: "lower ''Error'' = ''error''"
  by code_simp

lemma format_phone_startswith_plus: "startswith (format_phone p) ''+''"
  by (simp add: format_phone_def startswith_def Let_def)

lemma format_phone_of_plus: "startswith p ''+'' \<Longrightarrow> format_phone p = p"
  by (simp add: format_phone_def)

lemma generate_message_trace: "snd (generate_message env l tr) = tr @ [GenerateContent l]"
  by (simp add: generate_message_def split: sum.splits)

lemma read_leads_trace: "snd (read_leads env sh rg tr) = tr @ [SheetsGet sh rg]"
  by (simp add: read_leads_def split: sum.splits)

lemma get_pending_leads_trace:
  "snd (get_pending_leads env sh tr) = tr @ [SheetsGet sh default_range]"
  using read_leads_trace [of env sh default_range tr]
  by (auto simp: get_pending_leads_def split: prod.splits outcome.splits)

lemma send_email_trace:
  "snd (send_email s env l m c tr) =
     tr @ [SmtpSend (gmail_user s) c (''Hello '' @ name l @ ''!'') m]"
  by (simp add: send_email_def Let_def split: option.splits)

lemma send_whatsapp_trace:
  "snd (send_whatsapp s env l m c tr) =
     tr @ [TwilioCreate m (twilio_whatsapp_number s) (''whatsapp:'' @ format_phone c)]"
  by (simp add: send_whatsapp_def Let_def split: option.splits exn.splits)

lemma send_message_test_mode:
  "send_message s env l m True tr = ((True, ''Test mode - message not actually sent''), tr)"
  by (simp add: send_message_def)

lemma update_unless_test_True: "update_unless_test env True row st tr = (Returned (), tr)"
  by (simp add: update_unless_test_def)


lemma update_lead_status_accepted:
  "sheets_update env tr sh row st = None \<Longrightarrow>
   update_lead_status env row st sh tr = (Returned (), tr @ [SheetsUpdate sh row st])"
  by (simp add: update_lead_status_def)

lemma update_unless_test_accepted:
  "test_mode \<or> sheets_update env tr default_sheet row st = None \<Longrightarrow>
   update_unless_test env test_mode row st tr =
     (Returned (), tr @ (if test_mode then [] else [SheetsUpdate default_sheet row st]))"
  by (auto simp: update_unless_test_def update_lead_status_accepted)

lemma row_numbers_leads_from:
  "map row_number (leads_from i headers rows) = [i ..< i + length rows]"
proof (induction rows arbitrary: i)
  case Nil
  show ?case by simp
next
  case (Cons row rows)
  have "[i ..< i + length (row # rows)] = i # [Suc i ..< Suc i + length rows]"
    by (subst upt_rec) simp
  with Cons.IH [of "Suc i"] show ?case by (simp add: make_lead_def)
qed

lemma distinct_row_numbers: "distinct (map row_number (leads_of_values values))"
  by (cases "values") (simp_all add: leads_of_values_def row_numbers_leads_from)


section \<open>Dry run\<close>

lemma process_lead_test_mode:
  "\<exists>c new. process_lead s env True l counts tr = (Returned c, tr @ new)
      \<and> filter is_status_write new = [] \<and> filter is_delivery new = []"
  by (cases "truthy (fst (generate_message env l tr))")
     (simp_all add: process_lead_def Let_def generate_message_trace send_message_test_mode
        update_unless_test_True)

lemma process_leads_test_mode:
  "\<exists>c new. process_leads s env True ls counts tr = (Returned c, tr @ new)
      \<and> filter is_status_write new = [] \<and> filter is_delivery new = []"
proof (induction ls arbitrary: counts tr)
  case Nil
  show ?case by simp
next
  case (Cons l ls)
  obtain c1 new1 where 1: "process_lead s env True l counts tr = (Returned c1, tr @ new1)"
    "filter is_status_write new1 = []" "filter is_delivery new1 = []"
    using process_lead_test_mode by blast
  obtain c2 new2 where
    2: "process_leads s env True ls c1 (tr @ new1) = (Returned c2, (tr @ new1) @ new2)"
    "filter is_status_write new2 = []" "filter is_delivery new2 = []"
    using Cons.IH by blast
  have "process_leads s env True (l # ls) counts tr = (Returned c2, tr @ (new1 @ new2))"
    using 1 2 by simp
  moreover have "filter is_status_write (new1 @ new2) = []"
    "filter is_delivery (new1 @ new2) = []"
    using 1 2 by simp_all
  ultimately show ?case by blast
qed

text \<open>
  C6. In test mode (the dry run) \<^verbatim>\<open>send_message\<close> adds no event to the trace, so it
  calls no service, and returns success with the detail "Test mode - message not
  actually sent", for every lead and message. A campaign run in test mode, whatever the
  services answer and whether it returns or raises, adds no status write to the trace
  (and no delivery either).
\<close>

theorem dry_run_no_send_no_status_write:
  "send_message s env l m True tr = ((True, ''Test mode - message not actually sent''), tr) \<and>
   (\<exists>new. snd (run_outreach_campaign s env True sheet_name tr) = tr @ new
      \<and> filter is_status_write new = [] \<and> filter is_delivery new = [])"
proof
  show "send_message s env l m True tr = ((True, ''Test mode - message not actually sent''), tr)"
    by (rule send_message_test_mode)
next
  let ?get = "SheetsGet sheet_name default_range"
  let ?tr1 = "tr @ [?get]"
  have tr1: "snd (get_pending_leads env sheet_name tr) = ?tr1"
    by (rule get_pending_leads_trace)
  show "\<exists>new. snd (run_outreach_campaign s env True sheet_name tr) = tr @ new
      \<and> filter is_status_write new = [] \<and> filter is_delivery new = []"
  proof (cases "fst (get_pending_leads env sheet_name tr)")
    case (Raised e)
    with tr1 have "get_pending_leads env sheet_name tr = (Raised e, ?tr1)"
      by (metis prod.collapse)
    then have "snd (run_outreach_campaign s env True sheet_name tr) = tr @ [?get]"
      by (simp add: run_outreach_campaign_def)
    then show ?thesis by simp
  next
    case (Returned ps)
    with tr1 have g: "get_pending_leads env sheet_name tr = (Returned ps, ?tr1)"
      by (metis prod.collapse)
    obtain c new where p: "process_leads s env True ps (0, 0) ?tr1 = (Returned c, ?tr1 @ new)"
      "filter is_status_write new = []" "filter is_delivery new = []"
      using process_leads_test_mode by blast
    show ?thesis
    proof (cases "ps = []")
      case True
      with g have "snd (run_outreach_campaign s env True sheet_name tr) = tr @ [?get]"
        by (simp add: run_outreach_campaign_def)
      then show ?thesis by simp
    next
      case False
      with g p have "snd (run_outreach_campaign s env True sheet_name tr) = tr @ (?get # new)"
        by (simp add: run_outreach_campaign_def)
      moreover have "filter is_status_write (?get # new) = []"
        "filter is_delivery (?get # new) = []"
        using p by simp_all
      ultimately show ?thesis by blast
    qed
  qed
qed


section \<open>Classification and the phone path\<close>

text \<open>
  A match needs, for each item of the pattern that must occur at least once, a character
  of that item's class in the string.
\<close>

lemma re_match_required:
  "re_match items k s \<Longrightarrow> i < length items \<Longrightarrow>
   (if i = 0 then k else 0) < fst (snd (items ! i)) \<Longrightarrow> \<exists>c \<in> set s. fst (items ! i) c"
proof (induction items k s arbitrary: i rule: re_match.induct)
  case (1 k s)
  then show ?case by simp
next
  case (2 cls lo hi items k)
  from "2.prems"(1) have a: "lo \<le> k" and b: "re_match items 0 []" by simp_all
  show ?case
  proof (cases i)
    case 0
    with "2.prems"(3) a show ?thesis by simp
  next
    case (Suc j)
    with "2.prems"(2,3) have "j < length items" "0 < fst (snd (items ! j))" by simp_all
    then have "(if j = 0 then 0 else 0) < fst (snd (items ! j))" by simp
    from "2.IH" [OF b \<open>j < length items\<close> this] show ?thesis by simp
  qed
next
  case (3 cls lo hi items k c cs)
  from "3.prems"(1) have
    "(cls c \<and> re_match ((cls, lo, hi) # items) (Suc k) cs) \<or>
     (lo \<le> k \<and> re_match items 0 (c # cs))"
    by (simp only: re_match.simps) blast
  then consider
    (rep) "cls c" "re_match ((cls, lo, hi) # items) (Suc k) cs"
    | (leave) "lo \<le> k" "re_match items 0 (c # cs)"
    by blast
  then show ?case
  proof cases
    case rep
    show ?thesis
    proof (cases i)
      case 0
      with rep(1) show ?thesis by simp
    next
      case (Suc j)
      with "3.prems"(3) have "(if i = 0 then Suc k else 0) < fst (snd (((cls, lo, hi) # items) ! i))"
        by simp
      from "3.IH"(1) [OF rep(2) "3.prems"(2) this] show ?thesis by simp
    qed
  next
    case leave
    show ?thesis
    proof (cases i)
      case 0
      with "3.prems"(3) leave(1) show ?thesis by simp
    next
      case (Suc j)
      with "3.prems"(2,3) have "j < length items" "0 < fst (snd (items ! j))" by simp_all
      then have "(if j = 0 then 0 else 0) < fst (snd (items ! j))" by simp
      from "3.IH"(2) [OF leave(2) \<open>j < length items\<close> this] Suc show ?thesis by simp
    qed
  qed
qed

text \<open>
  The two shapes exclude each other by themselves: an email-shaped string contains
  \<open>@\<close>, which is neither a digit nor a character that \<^verbatim>\<open>_is_phone_number\<close> strips.
\<close>

lemma is_email_has_at: "is_email c \<Longrightarrow> CHR ''@'' \<in> set c"
proof -
  assume "is_email c"
  then have m: "re_match email_pattern 0 c" by (simp only: is_email_def)
  have l: "1 < length email_pattern" by (simp add: email_pattern_def)
  have f: "fst (email_pattern ! 1) = (\<lambda>c. c = CHR ''@'')" "fst (snd (email_pattern ! 1)) = 1"
    by (simp_all add: email_pattern_def)
  then have "(if (1::nat) = 0 then 0 else 0) < fst (snd (email_pattern ! 1))" by simp
  from re_match_required [OF m l this] f(1) show ?thesis by simp
qed

lemma is_phone_number_chars:
  "is_phone_number c \<Longrightarrow> x \<in> set c \<Longrightarrow> phone_punct_plus x \<or> isdigit_char x"
proof -
  assume p: "is_phone_number c" and x: "x \<in> set c"
  from p have "list_all isdigit_char (filter (\<lambda>x. \<not> phone_punct_plus x) c)"
    by (simp add: is_phone_number_def isdigit_def Let_def)
  with x show ?thesis by (auto simp: list_all_iff)
qed

lemma at_sign_no_phone_char: "\<not> phone_punct_plus CHR ''@'' \<and> \<not> isdigit_char CHR ''@''"
  by (simp add: phone_punct_plus_def isdigit_char_def ascii_digit_def isspace_def)

lemma email_shape_not_phone_shape: "is_email c \<Longrightarrow> \<not> is_phone_number c"
proof
  assume e: "is_email c" and p: "is_phone_number c"
  from is_phone_number_chars [OF p is_email_has_at [OF e]]
  have "phone_punct_plus CHR ''@'' \<or> isdigit_char CHR ''@''" .
  with at_sign_no_phone_char show False by simp
qed

text \<open>
  C3. Outside test mode, \<^verbatim>\<open>send_message\<close> takes exactly one of the three paths for
  every contact string: \<open>path_taken\<close> is a function of what the call did, it always has a
  value, and that value is the email send when the stripped contact is email-shaped,
  the phone send when it is not email-shaped and is phone-shaped, and the immediate
  failure otherwise. The phone shape decides only when the contact is not email-shaped
  (and by \<open>email_shape_not_phone_shape\<close> no contact has both shapes).
\<close>

theorem send_message_takes_one_path:
  "path_taken tr (send_message s env l m False tr) =
     Some (if is_email (strip (contact l)) then EmailSend
           else if is_phone_number (strip (contact l)) then PhoneSend
           else ImmediateFailure)"
  by (simp add: path_taken_def send_message_def Let_def send_email_trace send_whatsapp_trace)

theorem send_message_takes_one_path_witness:
  "path_taken [] (send_message example_sender (example_env [] example_gen)
      (example_lead ''jane@example.com'') ''Hi'' False []) = Some EmailSend \<and>
   path_taken [] (send_message example_sender (example_env [] example_gen)
      (example_lead ''9876543210'') ''Hi'' False []) = Some PhoneSend \<and>
   path_taken [] (send_message example_sender (example_env [] example_gen)
      (example_lead ''abc'') ''Hi'' False []) = Some ImmediateFailure"
proof -
  have e: "is_email (strip (contact (example_lead ''jane@example.com'')))"
    by code_simp
  have p: "\<not> is_email (strip (contact (example_lead ''9876543210'')))"
    "is_phone_number (strip (contact (example_lead ''9876543210'')))"
    by code_simp+
  have i: "\<not> is_email (strip (contact (example_lead ''abc'')))"
    "\<not> is_phone_number (strip (contact (example_lead ''abc'')))"
    by code_simp+
  show ?thesis
    using send_message_takes_one_path [of "[]" example_sender "example_env [] example_gen"
        "example_lead ''jane@example.com''" "''Hi''"]
      send_message_takes_one_path [of "[]" example_sender "example_env [] example_gen"
        "example_lead ''9876543210''" "''Hi''"]
      send_message_takes_one_path [of "[]" example_sender "example_env [] example_gen"
        "example_lead ''abc''" "''Hi''"]
      e p i
    by simp
qed

text \<open>
  C8. Phone normalization is idempotent on every number that starts with \<open>+\<close>.
\<close>

theorem format_phone_idempotent_on_plus:
  "startswith x ''+'' \<Longrightarrow> format_phone (format_phone x) = format_phone x"
  by (simp add: format_phone_of_plus)

theorem format_phone_idempotent_on_plus_witness:
  "startswith ''+14155550123'' ''+'' \<and>
   format_phone (format_phone ''+14155550123'') = format_phone ''+14155550123'' \<and>
   format_phone ''+14155550123'' = ''+14155550123''"
  using format_phone_idempotent_on_plus [of "''+14155550123''"]
  by (simp add: startswith_def format_phone_def)

text \<open>
  C9. For every contact that takes the phone path (not email-shaped, phone-shaped), the
  normalized number begins with \<open>+\<close>, and the one call \<^verbatim>\<open>send_message\<close> then makes is
  the messaging API's, to the recipient "whatsapp:" followed by that normalized number.
\<close>

theorem whatsapp_recipient:
  assumes "\<not> is_email (strip (contact l))" and "is_phone_number (strip (contact l))"
  shows "startswith (format_phone (strip (contact l))) ''+'' \<and>
         snd (send_message s env l m False tr) =
           tr @ [TwilioCreate m (twilio_whatsapp_number s)
                   (''whatsapp:'' @ format_phone (strip (contact l)))]"
  using assms
  by (simp add: format_phone_startswith_plus send_message_def Let_def send_whatsapp_trace)

theorem whatsapp_recipient_witness:
  "\<not> is_email (strip (contact (example_lead ''98765 43210''))) \<and>
   is_phone_number (strip (contact (example_lead ''98765 43210''))) \<and>
   startswith (format_phone (strip (contact (example_lead ''98765 43210'')))) ''+'' \<and>
   snd (send_message example_sender (example_env [] example_gen)
          (example_lead ''98765 43210'') ''Hi'' False []) =
     [TwilioCreate ''Hi'' ''whatsapp:+14155238886'' ''whatsapp:+919876543210'']"
proof -
  have h: "\<not> is_email (strip (contact (example_lead ''98765 43210'')))"
    "is_phone_number (strip (contact (example_lead ''98765 43210'')))"
    by code_simp+
  have f: "format_phone (strip (contact (example_lead ''98765 43210''))) = ''+919876543210''"
    by code_simp
  have n: "twilio_whatsapp_number example_sender = ''whatsapp:+14155238886''"
    by (simp add: example_sender_def)
  show ?thesis
    using whatsapp_recipient [OF h, of example_sender "example_env [] example_gen" "''Hi''" "[]"]
      h f n
    by simp
qed


section \<open>Pending leads\<close>

text \<open>
  C4. When the read of the sheet returns \<open>all_leads\<close>, \<^verbatim>\<open>get_pending_leads\<close> returns
  the leads among them whose status equals "Pending" case-insensitively, in their order:
  a lead with any other status is excluded, every lead returned has such a status, and
  every lead read with such a status is returned.
\<close>

theorem get_pending_leads_filters:
  assumes "read_leads env sheet_name default_range tr = (Returned all_leads, tr')"
  shows "\<exists>ps. get_pending_leads env sheet_name tr = (Returned ps, tr')
           \<and> ps = filter (\<lambda>l. iequal (status l) ''Pending'') all_leads
           \<and> (\<forall>l. \<not> iequal (status l) ''Pending'' \<longrightarrow> l \<notin> set ps)
           \<and> (\<forall>l \<in> set ps. iequal (status l) ''Pending'')
           \<and> (\<forall>l \<in> set all_leads. iequal (status l) ''Pending'' \<longrightarrow> l \<in> set ps)"
  using assms by (simp add: get_pending_leads_def iequal_def lower_Pending)

theorem get_pending_leads_filters_witness:
  "read_leads (example_env example_sheet example_gen) default_sheet default_range [] =
     (Returned (leads_of_values example_sheet), [SheetsGet default_sheet default_range]) \<and>
   map name (filter (\<lambda>l. iequal (status l) ''Pending'') (leads_of_values example_sheet)) =
     [''Jane'', ''Omar''] \<and>
   (\<exists>ps. get_pending_leads (example_env example_sheet example_gen) default_sheet [] =
            (Returned ps, [SheetsGet default_sheet default_range])
      \<and> ps = filter (\<lambda>l. iequal (status l) ''Pending'') (leads_of_values example_sheet)
      \<and> (\<forall>l. \<not> iequal (status l) ''Pending'' \<longrightarrow> l \<notin> set ps)
      \<and> (\<forall>l \<in> set ps. iequal (status l) ''Pending'')
      \<and> (\<forall>l \<in> set (leads_of_values example_sheet).
            iequal (status l) ''Pending'' \<longrightarrow> l \<in> set ps))"
proof -
  have r: "read_leads (example_env example_sheet example_gen) default_sheet default_range [] =
     (Returned (leads_of_values example_sheet), [SheetsGet default_sheet default_range])"
    by (simp add: read_leads_def example_env_def)
  have n: "map name (filter (\<lambda>l. iequal (status l) ''Pending'')
             (leads_of_values example_sheet)) = [''Jane'', ''Omar'']"
    by code_simp
  from get_pending_leads_filters [OF r] r n show ?thesis by blast
qed


section \<open>The campaign loop\<close>

text \<open>
  The body of the loop when generation returns absent and the store accepts the status
  write (which is not made in test mode): an update of the lead's row number to "Error"
  is issued unless in test mode, the success count stays, the error count grows by one,
  no delivery call is made, and the loop goes on with the leads that remain. The update
  names no sheet.
\<close>

lemma generation_absent_counts_error:
  assumes absent: "fst (generate_message env l tr) = None"
    and accepted: "test_mode \<or>
      sheets_update env (tr @ [GenerateContent l]) default_sheet (row_number l) ''Error'' = None"
  shows "process_leads s env test_mode (l # rest) (success_count, error_count) tr =
         process_leads s env test_mode rest (success_count, error_count + 1)
           (tr @ GenerateContent l #
              (if test_mode then [] else [SheetsUpdate default_sheet (row_number l) ''Error'']))"
proof -
  have "process_lead s env test_mode l (success_count, error_count) tr =
          (Returned (success_count, error_count + 1),
           tr @ GenerateContent l #
              (if test_mode then [] else [SheetsUpdate default_sheet (row_number l) ''Error'']))"
    using absent update_unless_test_accepted [OF accepted]
    by (simp add: process_lead_def Let_def truthy_def generate_message_trace)
  then show ?thesis by simp
qed

lemma generation_absent_counts_error_example:
  "fst (generate_message (example_env example_sheet failing_gen)
          (example_lead ''jane@example.com'') []) = None \<and>
   sheets_update (example_env example_sheet failing_gen)
     [GenerateContent (example_lead ''jane@example.com'')] default_sheet
     (row_number (example_lead ''jane@example.com'')) ''Error'' = None \<and>
   process_leads example_sender (example_env example_sheet failing_gen) False
     [example_lead ''jane@example.com''] (0, 0) [] =
     (Returned (0, 1),
      [GenerateContent (example_lead ''jane@example.com''),
       SheetsUpdate default_sheet (row_number (example_lead ''jane@example.com'')) ''Error''])"
proof -
  let ?env = "example_env example_sheet failing_gen"
  let ?l = "example_lead ''jane@example.com''"
  have a: "fst (generate_message ?env ?l []) = None"
    by (simp add: generate_message_def example_env_def failing_gen_def)
  have u: "sheets_update ?env ([] @ [GenerateContent ?l]) default_sheet (row_number ?l)
             ''Error'' = None"
    by (simp add: example_env_def)
  have "process_leads example_sender ?env False (?l # []) (0, 0) [] =
        process_leads example_sender ?env False [] (0, 0 + 1)
          ([] @ GenerateContent ?l #
              (if False then [] else [SheetsUpdate default_sheet (row_number ?l) ''Error'']))"
    using u by (intro generation_absent_counts_error [OF a]) simp
  with a u show ?thesis by simp
qed

lemma process_lead_counts:
  assumes "process_lead s env tm l (sc, ec) tr = (Returned (sc', ec'), tr')"
  shows "(sc' = sc + 1 \<and> ec' = ec) \<or> (sc' = sc \<and> ec' = ec + 1)"
  using assms
  by (auto simp: process_lead_def Let_def
        split: option.splits prod.splits outcome.splits if_splits)

lemma process_leads_counts:
  "process_leads s env tm ls (sc, ec) tr = (Returned (sc', ec'), tr') \<Longrightarrow>
   sc' + ec' = sc + ec + length ls"
proof (induction ls arbitrary: sc ec tr)
  case Nil
  then show ?case by simp
next
  case (Cons l ls)
  from Cons.prems obtain c1 tr1 where
    1: "process_lead s env tm l (sc, ec) tr = (Returned c1, tr1)" and
    2: "process_leads s env tm ls c1 tr1 = (Returned (sc', ec'), tr')"
    by (auto split: prod.splits outcome.splits)
  obtain sc1 ec1 where c1: "c1 = (sc1, ec1)" by (cases c1)
  from 1 c1 have "sc1 + ec1 = sc + ec + 1"
    using process_lead_counts by fastforce
  moreover from 2 c1 have "sc' + ec' = sc1 + ec1 + length ls"
    using Cons.IH by blast
  ultimately show ?case by simp
qed

text \<open>A run returns whenever the sheet can be read and the store accepts the updates.\<close>

lemma process_lead_returns:
  assumes "\<forall>tr row st. sheets_update env tr default_sheet row st = None"
  shows "\<exists>c tr'. process_lead s env test_mode l counts tr = (Returned c, tr')"
proof -
  have u: "\<And>row st tr. \<exists>tr'. update_unless_test env test_mode row st tr = (Returned (), tr')"
    using assms by (simp add: update_unless_test_def update_lead_status_accepted)
  show ?thesis
  proof (cases "truthy (fst (generate_message env l tr))")
    case None
    obtain tr2 where "update_unless_test env test_mode (row_number l) ''Error''
        (snd (generate_message env l tr)) = (Returned (), tr2)"
      using u by blast
    with None show ?thesis by (simp add: process_lead_def Let_def)
  next
    case (Some m)
    let ?r = "send_message s env l m test_mode (snd (generate_message env l tr))"
    obtain tr3 where a: "update_unless_test env test_mode (row_number l) ''Sent'' (snd ?r) =
        (Returned (), tr3)"
      using u by blast
    obtain tr4 where b: "update_unless_test env test_mode (row_number l) ''Error'' (snd ?r) =
        (Returned (), tr4)"
      using u by blast
    from Some a b show ?thesis by (simp add: process_lead_def Let_def)
  qed
qed

lemma process_leads_returns:
  assumes "\<forall>tr row st. sheets_update env tr default_sheet row st = None"
  shows "\<exists>c tr'. process_leads s env test_mode ls counts tr = (Returned c, tr')"
proof (induction ls arbitrary: counts tr)
  case Nil
  show ?case by simp
next
  case (Cons l ls)
  obtain c1 tr1 where "process_lead s env test_mode l counts tr = (Returned c1, tr1)"
    using process_lead_returns [OF assms] by blast
  with Cons.IH [of c1 tr1] show ?case by simp
qed

lemma run_outreach_campaign_returns:
  assumes "sheets_get env tr sheet_name default_range = Inr values"
    and "\<forall>tr row st. sheets_update env tr default_sheet row st = None"
  shows "\<exists>res tr'. run_outreach_campaign s env test_mode sheet_name tr = (Returned res, tr')"
proof -
  let ?tr1 = "tr @ [SheetsGet sheet_name default_range]"
  let ?ps = "filter (\<lambda>l. lower (status l) = ''pending'') (leads_of_values values)"
  have g: "get_pending_leads env sheet_name tr = (Returned ?ps, ?tr1)"
    using assms(1) by (simp add: get_pending_leads_def read_leads_def)
  obtain c tr2 where "process_leads s env test_mode ?ps (0, 0) ?tr1 = (Returned c, tr2)"
    using process_leads_returns [OF assms(2)] by blast
  with g show ?thesis by (simp add: run_outreach_campaign_def)
qed

text \<open>
  C10. When a campaign run returns (no exception of the store came through; the
  generator's never do; \<open>run_outreach_campaign_returns\<close> says when that is certain),
  the pending leads were read, and the tally it logs satisfies
  success count + error count = the number of pending leads: by \<open>process_lead_counts\<close>
  each lead adds one to exactly one of the two counters. With no pending lead the run
  returns before the counters exist.
\<close>

theorem campaign_tally:
  assumes "run_outreach_campaign s env test_mode sheet_name tr = (Returned res, tr')"
  shows "\<exists>pending_leads tr1.
           get_pending_leads env sheet_name tr = (Returned pending_leads, tr1) \<and>
           (case res of
              None \<Rightarrow> pending_leads = []
            | Some (success_count, error_count) \<Rightarrow>
                success_count + error_count = length pending_leads)"
proof -
  from assms obtain ps tr1 where g: "get_pending_leads env sheet_name tr = (Returned ps, tr1)"
    by (auto simp: run_outreach_campaign_def split: prod.splits outcome.splits)
  show ?thesis
  proof (cases "ps = []")
    case True
    with g assms have "res = None" by (simp add: run_outreach_campaign_def)
    with g True show ?thesis by simp
  next
    case False
    with g assms obtain sc ec where r: "res = Some (sc, ec)"
      and p: "process_leads s env test_mode ps (0, 0) tr1 = (Returned (sc, ec), tr')"
      by (auto simp: run_outreach_campaign_def split: prod.splits outcome.splits)
    from p have "sc + ec = length ps" using process_leads_counts by fastforce
    with g r show ?thesis by simp
  qed
qed

theorem campaign_tally_witness:
  "fst (run_outreach_campaign example_sender (example_env example_sheet example_gen) False
          default_sheet []) = Returned (Some (1, 1)) \<and>
   (\<exists>pending_leads tr1.
      get_pending_leads (example_env example_sheet example_gen) default_sheet [] =
        (Returned pending_leads, tr1) \<and>
      (1::nat) + 1 = length pending_leads)"
proof -
  let ?run = "run_outreach_campaign example_sender (example_env example_sheet example_gen)
                False default_sheet []"
  have f: "fst ?run = Returned (Some (1, 1))"
    by code_simp
  then have "?run = (Returned (Some (1, 1)), snd ?run)"
    by (metis prod.collapse)
  from campaign_tally [OF this] f show ?thesis by simp
qed


section \<open>Resetting failed leads\<close>

lemma reset_leads_returned:
  "reset_leads env ls tr = (Returned u, tr') \<Longrightarrow>
   tr' = tr @ map (\<lambda>l. SheetsUpdate default_sheet (row_number l) ''Pending'') ls"
proof (induction ls arbitrary: tr)
  case Nil
  then show ?case by simp
next
  case (Cons l ls)
  from Cons.prems have
    "reset_leads env ls (tr @ [SheetsUpdate default_sheet (row_number l) ''Pending'']) =
       (Returned u, tr')"
    by (auto simp: update_lead_status_def split: option.splits)
  from Cons.IH [OF this] show ?case by simp
qed

lemma reset_leads_accepted:
  assumes "\<forall>tr row. sheets_update env tr default_sheet row ''Pending'' = None"
  shows "\<exists>tr'. reset_leads env ls tr = (Returned (), tr')"
proof (induction ls arbitrary: tr)
  case Nil
  show ?case by simp
next
  case (Cons l ls)
  from assms have "update_lead_status env (row_number l) ''Pending'' default_sheet tr =
      (Returned (), tr @ [SheetsUpdate default_sheet (row_number l) ''Pending''])"
    by (simp add: update_lead_status_accepted)
  with Cons.IH show ?case by simp
qed

lemma retry_failed_leads_returns:
  assumes "sheets_get env tr sheet_name default_range = Inr values"
    and "\<forall>tr row. sheets_update env tr default_sheet row ''Pending'' = None"
  shows "\<exists>n tr'. retry_failed_leads env sheet_name tr = (Returned n, tr')"
proof -
  let ?tr1 = "tr @ [SheetsGet sheet_name default_range]"
  let ?failed = "filter (\<lambda>l. lower (status l) = ''error'') (leads_of_values values)"
  have r: "read_leads env sheet_name default_range tr = (Returned (leads_of_values values), ?tr1)"
    using assms(1) by (simp add: read_leads_def)
  obtain tr2 where "reset_leads env ?failed ?tr1 = (Returned (), tr2)"
    using reset_leads_accepted [OF assms(2)] by blast
  with r show ?thesis by (simp add: retry_failed_leads_def Let_def)
qed

text \<open>
  What \<^verbatim>\<open>retry_failed_leads\<close> issues when it returns (the store raised nothing; it
  does return then, by \<open>retry_failed_leads_returns\<close>): after the read, exactly one
  status update per lead whose status equals "Error" case-insensitively, in their order,
  each writing "Pending" at that lead's row number, and nothing else; it reports their
  number. The updates name no sheet, so they are addressed to the default sheet whatever
  sheet was read.
\<close>

lemma retry_failed_resets_errors:
  assumes "retry_failed_leads env sheet_name tr = (Returned n, tr')"
  shows "\<exists>all_leads new.
           read_leads env sheet_name default_range tr =
             (Returned all_leads, tr @ [SheetsGet sheet_name default_range]) \<and>
           tr' = tr @ SheetsGet sheet_name default_range # new \<and>
           new = map (\<lambda>l. SheetsUpdate default_sheet (row_number l) ''Pending'')
                   (filter (\<lambda>l. iequal (status l) ''Error'') all_leads) \<and>
           n = length new \<and>
           (\<forall>l \<in> set all_leads. \<forall>sh st. SheetsUpdate sh (row_number l) st \<in> set new
               \<longleftrightarrow> iequal (status l) ''Error'' \<and> sh = default_sheet \<and> st = ''Pending'')"
proof -
  let ?tr1 = "tr @ [SheetsGet sheet_name default_range]"
  from assms obtain all_leads tr1 where
    r0: "read_leads env sheet_name default_range tr = (Returned all_leads, tr1)"
    by (auto simp: retry_failed_leads_def split: prod.splits outcome.splits)
  with read_leads_trace [of env sheet_name default_range tr]
  have r: "read_leads env sheet_name default_range tr = (Returned all_leads, ?tr1)" by simp
  define failed where "failed = filter (\<lambda>l. iequal (status l) ''Error'') all_leads"
  define new where
    "new = map (\<lambda>l. SheetsUpdate default_sheet (row_number l) ''Pending'') failed"
  have f: "filter (\<lambda>l. lower (status l) = ''error'') all_leads = failed"
    by (simp add: failed_def iequal_def lower_Error)
  have tr': "tr' = ?tr1 @ new \<and> n = length failed"
  proof (cases "failed = []")
    case True
    with assms r f show ?thesis by (simp add: retry_failed_leads_def new_def)
  next
    case False
    with assms r f obtain u where "reset_leads env failed ?tr1 = (Returned u, tr')"
      and "n = length failed"
      by (auto simp: retry_failed_leads_def Let_def split: prod.splits outcome.splits)
    then show ?thesis using reset_leads_returned new_def by blast
  qed
  have "all_leads =
          leads_of_values
            (case sheets_get env tr sheet_name default_range of Inr v \<Rightarrow> v | Inl e \<Rightarrow> [])"
    using r by (auto simp: read_leads_def split: sum.splits)
  then have d: "distinct (map row_number all_leads)"
    using distinct_row_numbers by simp
  have inj: "\<And>l l'. l \<in> set all_leads \<Longrightarrow> l' \<in> set all_leads \<Longrightarrow>
                row_number l = row_number l' \<Longrightarrow> l = l'"
    using d by (meson distinct_map inj_onD)
  have "\<forall>l \<in> set all_leads. \<forall>sh st. SheetsUpdate sh (row_number l) st \<in> set new
               \<longleftrightarrow> iequal (status l) ''Error'' \<and> sh = default_sheet \<and> st = ''Pending''"
    using inj by (auto simp: new_def failed_def)
  with r tr' show ?thesis
    unfolding new_def failed_def by auto
qed


lemma retry_failed_resets_errors_example:
  "retry_failed_leads (example_env example_sheet example_gen) default_sheet [] =
     (Returned 3,
      [SheetsGet default_sheet default_range,
       SheetsUpdate default_sheet 3 ''Pending'',
       SheetsUpdate default_sheet 5 ''Pending'',
       SheetsUpdate default_sheet 6 ''Pending'']) \<and>
   (\<exists>all_leads new.
      read_leads (example_env example_sheet example_gen) default_sheet default_range [] =
        (Returned all_leads, [] @ [SheetsGet default_sheet default_range]) \<and>
      [SheetsGet default_sheet default_range,
       SheetsUpdate default_sheet 3 ''Pending'',
       SheetsUpdate default_sheet 5 ''Pending'',
       SheetsUpdate default_sheet 6 ''Pending''] =
        [] @ SheetsGet default_sheet default_range # new \<and>
      new = map (\<lambda>l. SheetsUpdate default_sheet (row_number l) ''Pending'')
              (filter (\<lambda>l. iequal (status l) ''Error'') all_leads) \<and>
      3 = length new \<and>
      (\<forall>l \<in> set all_leads. \<forall>sh st. SheetsUpdate sh (row_number l) st \<in> set new
          \<longleftrightarrow> iequal (status l) ''Error'' \<and> sh = default_sheet \<and> st = ''Pending''))"
proof -
  have r: "retry_failed_leads (example_env example_sheet example_gen) default_sheet [] =
     (Returned 3,
      [SheetsGet default_sheet default_range,
       SheetsUpdate default_sheet 3 ''Pending'',
       SheetsUpdate default_sheet 5 ''Pending'',
       SheetsUpdate default_sheet 6 ''Pending''])"
    by code_simp
  from retry_failed_resets_errors [OF r] r show ?thesis by blast
qed


section \<open>Reading leads: header, padding and the status default\<close>

lemma length_leads_from: "length (leads_from i headers rows) = length rows"
  by (induction rows arbitrary: i) simp_all

text \<open>
  The first row is the header and gives no lead; the data rows give one lead each, in
  order, numbered from 2.
\<close>

lemma leads_of_values_header_discarded:
  "leads_of_values (headers # rows) = leads_from 2 headers rows \<and>
   length (leads_of_values (headers # rows)) = length rows \<and>
   map row_number (leads_of_values (headers # rows)) = [2 ..< 2 + length rows]"
  by (simp only: leads_of_values_def list.case length_leads_from row_numbers_leads_from)

text \<open>A row shorter than the header is padded on the right with empty strings.\<close>

lemma pad_row_short:
  "length row < length headers \<Longrightarrow>
   length (pad_row headers row) = length headers \<and>
   take (length row) (pad_row headers row) = row \<and>
   drop (length row) (pad_row headers row) = replicate (length headers - length row) []"
  by (simp add: pad_row_eq)

text \<open>
  The status of a lead, from its row as the store gave it: the padding comes first, so a
  row without a status cell under a header of five columns or more has the empty status,
  and "Pending" is the status only under a header of four columns or fewer.
\<close>

lemma status_of_padded_row:
  "status (make_lead i (pad_row headers row)) =
     (if 4 < length row then row ! 4
      else if 4 < length headers then []
      else ''Pending'')"
proof -
  consider "4 < length row" | "\<not> 4 < length row" "4 < length headers"
    | "\<not> 4 < length row" "\<not> 4 < length headers"
    by blast
  then show ?thesis
  proof cases
    case 1
    then show ?thesis by (simp add: make_lead_def cell_def pad_row_eq nth_append)
  next
    case 2
    then have "4 - length row < length headers - length row" by arith
    with 2 show ?thesis by (simp add: make_lead_def cell_def pad_row_eq nth_append)
  next
    case 3
    then have "\<not> 4 < length row + (length headers - length row)" by arith
    with 3 show ?thesis by (simp add: make_lead_def cell_def pad_row_eq)
  qed
qed

text \<open>
  C1. The header is discarded and short rows are padded, as the two lemmas above say.
  The third part, that every lead whose status field is missing gets the status
  "Pending", does not hold of the code: on the sheet \<open>short_row_sheet\<close>, whose header
  has the five columns and whose one data row has no status cell, the lead is read with
  the empty status, and so it is not among the pending leads either. The expression
  \<^verbatim>\<open>row[4] if len(row) > 4 else "Pending"\<close> is evaluated after the padding, which has
  made the row five cells long.
\<close>

theorem missing_status_read_as_empty:
  "leads_of_values short_row_sheet =
     [\<lparr> row_number = 2, name = ''Asha'', contact = ''asha@example.com'',
        interest = ''solar'', region = ''Pune'', status = [] \<rparr>] \<and>
   get_pending_leads (example_env short_row_sheet example_gen) default_sheet [] =
     (Returned [], [SheetsGet default_sheet default_range])"
proof -
  have "leads_of_values short_row_sheet =
     [\<lparr> row_number = 2, name = ''Asha'', contact = ''asha@example.com'',
        interest = ''solar'', region = ''Pune'', status = [] \<rparr>]"
    by code_simp
  moreover
  have "get_pending_leads (example_env short_row_sheet example_gen) default_sheet [] =
     (Returned [], [SheetsGet default_sheet default_range])"
    by code_simp
  ultimately show ?thesis by simp
qed


section \<open>Phone normalization against the specification\<close>

lemma format_phone_scenarios:
  "format_phone ''9876543210'' = ''+919876543210'' \<and>
   format_phone ''5551234567'' = ''+15551234567''"
  by code_simp

lemma filter_punct_without_plus:
  "CHR ''+'' \<notin> set c \<Longrightarrow>
   filter (\<lambda>x. \<not> phone_punct_plus x) c = filter (\<lambda>x. \<not> phone_punct x) c"
  by (rule filter_cong) (auto simp: phone_punct_plus_def phone_punct_def)

text \<open>
  The code normalizes as the specification says whenever the contact starts with \<open>+\<close>
  or contains no \<open>+\<close> at all.
\<close>

lemma format_phone_agrees_without_inner_plus:
  assumes "startswith c ''+'' \<or> CHR ''+'' \<notin> set c"
  shows "format_phone c = spec_normalize c"
proof (cases "startswith c ''+''")
  case True
  then show ?thesis by (simp add: format_phone_def spec_normalize_def)
next
  case False
  with assms have "CHR ''+'' \<notin> set c" by simp
  then have eq: "filter (\<lambda>x. \<not> phone_punct_plus x) c = filter (\<lambda>x. \<not> phone_punct x) c"
    by (rule filter_punct_without_plus)
  have hd: "\<And>d :: string. length d = 10 \<Longrightarrow> hd d = d ! 0"
    by (case_tac d) simp_all
  show ?thesis
    using False by (auto simp: format_phone_def spec_normalize_def Let_def eq hd)
qed

text \<open>
  C2. The two scenarios of the specification hold (\<open>format_phone_scenarios\<close>), and so does the
  precedence for a contact that starts with \<open>+\<close> or has no \<open>+\<close>. It does not hold for
  a contact with a \<open>+\<close> that is not its first character: \<^verbatim>\<open>_is_phone_number\<close> strips
  the \<open>+\<close> before it looks at the digits, \<^verbatim>\<open>_send_whatsapp\<close> does not. The contact
  "(+91) 9876543210" is classified as a phone number; its digits start with "91" and
  are 12, so the specification normalizes it to "+919876543210"; the code sends to
  "whatsapp:++919876543210".
\<close>

theorem inner_plus_sign_is_doubled:
  "\<not> is_email (strip (contact (example_lead ''(+91) 9876543210''))) \<and>
   is_phone_number (strip (contact (example_lead ''(+91) 9876543210''))) \<and>
   spec_normalize (strip (contact (example_lead ''(+91) 9876543210''))) = ''+919876543210'' \<and>
   format_phone (strip (contact (example_lead ''(+91) 9876543210''))) = ''++919876543210'' \<and>
   snd (send_message example_sender (example_env [] example_gen)
          (example_lead ''(+91) 9876543210'') ''Hi'' False []) =
     [TwilioCreate ''Hi'' ''whatsapp:+14155238886'' ''whatsapp:++919876543210'']"
proof -
  let ?c = "strip (contact (example_lead ''(+91) 9876543210''))"
  have e: "\<not> is_email ?c" by code_simp
  have p: "is_phone_number ?c" by code_simp
  have n: "spec_normalize ?c = ''+919876543210''" by code_simp
  have f: "format_phone ?c = ''++919876543210''" by code_simp
  have "snd (send_message example_sender (example_env [] example_gen)
          (example_lead ''(+91) 9876543210'') ''Hi'' False []) =
     [TwilioCreate ''Hi'' ''whatsapp:+14155238886'' (''whatsapp:'' @ format_phone ?c)]"
    using e p by (simp add: send_message_def Let_def send_whatsapp_trace example_sender_def)
  with e p n f show ?thesis by simp
qed


section \<open>Status updates and the sheet of the run\<close>

text \<open>
  \<^verbatim>\<open>run_outreach_campaign\<close> and \<^verbatim>\<open>retry_failed_leads\<close> read the leads from the sheet
  they are given (\<^verbatim>\<open>--sheet-name\<close> on the command line), and call
  \<^verbatim>\<open>update_lead_status(lead['row_number'], status)\<close> without it, so every status goes
  to the sheet "outreach_leads". The two runs below are on a sheet "leads2" that holds
  \<open>example_sheet\<close>.
\<close>

text \<open>
  C5. For a lead for which generation returns absent the run leaves the success count,
  adds one to the error count, attempts no send and continues
  (\<open>generation_absent_counts_error\<close>), but it does not always mark that lead "Error":
  in a run on "leads2" outside test mode, with generation failing for the two pending
  leads at rows 2 and 4, the tally is 0 successes and 2 errors, no delivery is attempted,
  and the two "Error" writes go to rows 2 and 4 of "outreach_leads"; the leads of
  "leads2" keep their status.
\<close>

theorem error_mark_goes_to_default_sheet:
  "run_outreach_campaign example_sender (example_env example_sheet failing_gen) False
     ''leads2'' [] =
     (Returned (Some (0, 2)),
      [SheetsGet ''leads2'' ''A:E'',
       GenerateContent
         \<lparr> row_number = 2, name = ''Jane'', contact = ''jane@example.com'',
           interest = ''solar'', region = ''Pune'', status = ''Pending'' \<rparr>,
       SheetsUpdate ''outreach_leads'' 2 ''Error'',
       GenerateContent
         \<lparr> row_number = 4, name = ''Omar'', contact = ''abc'',
           interest = ''hydro'', region = ''Cairo'', status = ''PENDING'' \<rparr>,
       SheetsUpdate ''outreach_leads'' 4 ''Error''])"
  by code_simp

text \<open>
  C7. \<^verbatim>\<open>retry_failed_leads\<close> issues one update to "Pending" per lead whose status
  equals "Error" case-insensitively, and none for the row number of another lead
  (\<open>retry_failed_resets_errors\<close>), but it does not always reset those leads and leave
  the others untouched: on "leads2", with three "Error" leads at rows 3, 5 and 6 and
  two "Pending" leads, it reports three leads reset, and the three writes go to rows 3,
  5 and 6 of "outreach_leads"; the "Error" leads of "leads2" stay as they are, and
  whatever leads "outreach_leads" has at those rows are set to "Pending".
\<close>

theorem reset_goes_to_default_sheet:
  "retry_failed_leads (example_env example_sheet example_gen) ''leads2'' [] =
     (Returned 3,
      [SheetsGet ''leads2'' ''A:E'',
       SheetsUpdate ''outreach_leads'' 3 ''Pending'',
       SheetsUpdate ''outreach_leads'' 5 ''Pending'',
       SheetsUpdate ''outreach_leads'' 6 ''Pending''])"
  by code_simp

end
